theory Spec2Isabelle
  imports Complex_Main
begin

section \<open>Strings and numbers of the source language\<close>

text \<open>
  The program is a TypeScript class, \<open>DailyDinchariyaApp\<close> in \<open>src/index.tsx\<close>. Its
  strings are modelled as \<open>string\<close> (lists of 8-bit characters), so every statement
  below is about ASCII text: \<open>toLowerCase\<close> folds the letters A-Z only and white space is
  the six ASCII white-space characters (the source's \<open>trim\<close> and \<open>\s\<close> also know the
  Unicode spaces).
\<close>

definition isSpace :: "char \<Rightarrow> bool" where
  "isSpace c = (c \<in> set [CHR 0x09, CHR 0x0A, CHR 0x0B, CHR 0x0C, CHR 0x0D, CHR 0x20])"

definition trim :: "string \<Rightarrow> string" where
  "trim s = rev (dropWhile isSpace (rev (dropWhile isSpace s)))"

definition lowerChar :: "char \<Rightarrow> char" where
  "lowerChar c =
     (case map_of (zip ''ABCDEFGHIJKLMNOPQRSTUVWXYZ'' ''abcdefghijklmnopqrstuvwxyz'') c of
        None \<Rightarrow> c
      | Some l \<Rightarrow> l)"

definition toLowerCase :: "string \<Rightarrow> string" where
  "toLowerCase s = map lowerChar s"

text \<open>\<open>s.split(c)\<close> for a one-character separator: never the empty list.\<close>

fun split_acc :: "char \<Rightarrow> string \<Rightarrow> string \<Rightarrow> string list" where
  "split_acc sep acc [] = [rev acc]"
| "split_acc sep acc (x # xs) =
     (if x = sep then rev acc # split_acc sep [] xs else split_acc sep (x # acc) xs)"

definition splitOn :: "char \<Rightarrow> string \<Rightarrow> string list" where
  "splitOn sep s = split_acc sep [] s"

text \<open>\<open>csv.split(/\r\n|\n/)\<close>: a line ends at CR LF or at LF; a CR alone stays in the line.\<close>

fun split_lines_acc :: "string \<Rightarrow> string \<Rightarrow> string list" where
  "split_lines_acc acc [] = [rev acc]"
| "split_lines_acc acc [x] =
     (if x = CHR 0x0A then [rev acc, []] else [rev (x # acc)])"
| "split_lines_acc acc (x # y # xs) =
     (if x = CHR 0x0D \<and> y = CHR 0x0A then rev acc # split_lines_acc [] xs
      else if x = CHR 0x0A then rev acc # split_lines_acc [] (y # xs)
      else split_lines_acc (x # acc) (y # xs))"

definition split_lines :: "string \<Rightarrow> string list" where
  "split_lines csv = split_lines_acc [] csv"

text \<open>
  A value of type \<open>number\<close>: \<open>NaN\<close>, a finite value, or one of the two infinities.
  Finite values are rationals and the operations on them are exact, without the rounding
  and the overflow of IEEE doubles; the two zeros are one value. The operations follow
  IEEE 754 where \<open>NaN\<close> or an infinity is involved. Both quotients the program takes
  are guarded against a zero divisor; \<open>numDiv\<close> gives a zero divisor the sign plus.
\<close>

datatype number = NaN | Fin rat | PInf | NInf

definition numNeg :: "number \<Rightarrow> number" where
  "numNeg x = (case x of NaN \<Rightarrow> NaN | Fin a \<Rightarrow> Fin (- a) | PInf \<Rightarrow> NInf | NInf \<Rightarrow> PInf)"

fun numAdd :: "number \<Rightarrow> number \<Rightarrow> number" where
  "numAdd NaN y = NaN"
| "numAdd x NaN = NaN"
| "numAdd (Fin a) (Fin b) = Fin (a + b)"
| "numAdd (Fin a) y = y"
| "numAdd x (Fin b) = x"
| "numAdd PInf PInf = PInf"
| "numAdd NInf NInf = NInf"
| "numAdd PInf NInf = NaN"
| "numAdd NInf PInf = NaN"

text \<open>The sign of a number that is not \<open>NaN\<close>: -1, 0 or 1.\<close>

definition numSign :: "number \<Rightarrow> int" where
  "numSign x =
     (case x of NaN \<Rightarrow> 0 | Fin a \<Rightarrow> (if a = 0 then 0 else if 0 < a then 1 else - 1)
      | PInf \<Rightarrow> 1 | NInf \<Rightarrow> - 1)"

definition infOfSign :: "int \<Rightarrow> number" where
  "infOfSign k = (if k = 0 then NaN else if 0 < k then PInf else NInf)"

fun numMul :: "number \<Rightarrow> number \<Rightarrow> number" where
  "numMul NaN y = NaN"
| "numMul x NaN = NaN"
| "numMul (Fin a) (Fin b) = Fin (a * b)"
| "numMul x y = infOfSign (numSign x * numSign y)"

fun numDiv :: "number \<Rightarrow> number \<Rightarrow> number" where
  "numDiv NaN y = NaN"
| "numDiv x NaN = NaN"
| "numDiv (Fin a) (Fin b) = (if b = 0 then infOfSign (numSign (Fin a)) else Fin (a / b))"
| "numDiv (Fin a) y = Fin 0"
| "numDiv x (Fin b) = infOfSign (numSign x * (if b < 0 then - 1 else 1))"
| "numDiv x y = NaN"

text \<open>\<open>x > y\<close> and \<open>Math.min(x, y)\<close>.\<close>

fun numGt :: "number \<Rightarrow> number \<Rightarrow> bool" where
  "numGt NaN y = False"
| "numGt x NaN = False"
| "numGt (Fin a) (Fin b) = (b < a)"
| "numGt PInf y = (y \<noteq> PInf)"
| "numGt x NInf = (x \<noteq> NInf)"
| "numGt x y = False"

definition numMin :: "number \<Rightarrow> number \<Rightarrow> number" where
  "numMin x y = (if x = NaN \<or> y = NaN then NaN else if numGt x y then y else x)"

text \<open>
  The double of a natural number: the number itself below \<open>2^53\<close>, otherwise the
  nearest number with 53 significant bits, a tie going to the even one, and infinity
  from \<open>2^1024\<close> on.
\<close>

fun bitLength :: "nat \<Rightarrow> nat" where
  "bitLength n = (if n = 0 then 0 else Suc (bitLength (n div 2)))"

declare bitLength.simps [simp del]

definition safeBound :: nat where
  "safeBound = 2 ^ 53"

definition doubleBound :: nat where
  "doubleBound = 2 ^ 1024"

definition toDouble :: "nat \<Rightarrow> number" where
  "toDouble n =
     (if n < safeBound then Fin (of_nat n)
      else let e = bitLength n - 53;
               q = n div 2 ^ e;
               r = n mod 2 ^ e;
               q' = (if 2 ^ e < 2 * r \<or> (2 * r = 2 ^ e \<and> odd q) then q + 1 else q);
               m = q' * 2 ^ e
           in if m < doubleBound then Fin (of_nat m) else PInf)"

text \<open>
  \<open>parseInt(s, 10)\<close> skips leading white space, reads an optional sign and the longest
  run of decimal digits, and is \<open>NaN\<close> when that run is empty; otherwise it is the
  double of the signed value of the run. (An engine may replace the digits after the
  twentieth significant one by zeros; the model reads them all, as it also may.)
\<close>

definition isDigit :: "char \<Rightarrow> bool" where
  "isDigit c = (let n = (of_char c :: nat) in 48 \<le> n \<and> n \<le> 57)"

definition digitsValue :: "string \<Rightarrow> nat" where
  "digitsValue ds = foldl (\<lambda>v c. 10 * v + (of_char c - 48)) 0 ds"

definition startsWithMinus :: "string \<Rightarrow> bool" where
  "startsWithMinus s = (case dropWhile isSpace s of [] \<Rightarrow> False | c # _ \<Rightarrow> c = CHR ''-'')"

definition digitRun :: "string \<Rightarrow> string" where
  "digitRun s =
     (let S = dropWhile isSpace s;
          S' = (case S of [] \<Rightarrow> [] | c # cs \<Rightarrow> if c = CHR ''+'' \<or> c = CHR ''-'' then cs else S)
      in takeWhile isDigit S')"

definition parseInt :: "string \<Rightarrow> number" where
  "parseInt s =
     (let Z = digitRun s
      in if Z = [] then NaN
         else if startsWithMinus s then numNeg (toDouble (digitsValue Z))
         else toDouble (digitsValue Z))"

text \<open>
  A destructured column is \<open>undefined\<close> (\<open>None\<close>) when the row is too short.
  \<open>parseInt(undefined, 10)\<close> reads the text \<open>undefined\<close>.
\<close>

definition nth_opt :: "'a list \<Rightarrow> nat \<Rightarrow> 'a option" where
  "nth_opt xs i = (if i < length xs then Some (xs ! i) else None)"

definition truthy :: "string option \<Rightarrow> bool" where
  "truthy c = (case c of None \<Rightarrow> False | Some s \<Rightarrow> s \<noteq> [])"

definition strval :: "string option \<Rightarrow> string" where
  "strval c = (case c of None \<Rightarrow> ''undefined'' | Some s \<Rightarrow> s)"

text \<open>\<open>n || 0\<close> on a number: \<open>NaN\<close> and zero are falsy.\<close>

definition orZero :: "number \<Rightarrow> number" where
  "orZero n = (if n = NaN \<or> n = Fin 0 then Fin 0 else n)"

text \<open>\<open>s || undefined\<close> on an optional string.\<close>

definition orUndefined :: "string option \<Rightarrow> string option" where
  "orUndefined c = (if truthy c then c else None)"

section \<open>Data model\<close>

text \<open>
  \<open>Day\<close> is a union of string literals, erased at run time: \<open>parseDays\<close> casts arbitrary
  strings to it and then filters them by \<open>allDays.includes\<close>, so a day is a string here.
  The fields \<open>id\<close> and \<open>name\<close> carry the name of their interface as a prefix.
  \<open>subPoints\<close> is optional (\<open>None\<close> is \<open>undefined\<close>).
\<close>

type_synonym Day = string

record Subtask =
  sub_id :: string
  sub_name :: string
  subPoints :: "number option"

record Task =
  task_id :: string
  task_name :: string
  points :: number
  timeStart :: "string option"
  timeEnd :: "string option"
  daysOfWeek :: "Day list"
  subtasks :: "Subtask list"
  active :: bool

text \<open>
  \<open>Record<string, boolean>\<close> is the list of the own properties of the object, in
  insertion order, as \<open>Object.keys\<close> and \<open>Object.values\<close> enumerate it. (The
  language lists keys that are array indices first; no statement below depends on
  where a new key is placed.) An object holds each key once: \<open>distinct (map fst m)\<close>
  is the well-formedness of such a list. The object is made by \<open>{}\<close>, so it inherits
  the properties of \<open>Object.prototype\<close>.
\<close>

type_synonym flags = "(string \<times> bool) list"

record TaskInstance =
  inst_id :: string
  task :: Task
  completed :: bool
  subtaskCompletion :: flags

text \<open>
  The names \<open>Object.prototype\<close> defines. Each of them reads as a function or an
  object, which is truthy, on an object that has no own property of that name.
\<close>

definition protoNames :: "string list" where
  "protoNames = [''constructor'', ''hasOwnProperty'', ''isPrototypeOf'', ''propertyIsEnumerable'',
     ''toLocaleString'', ''toString'', ''valueOf'', ''__proto__'', ''__defineGetter__'',
     ''__defineSetter__'', ''__lookupGetter__'', ''__lookupSetter__'']"

text \<open>
  \<open>obj[k] = v\<close> for a boolean \<open>v\<close>. It updates the own property \<open>k\<close> or appends one,
  except that without an own property \<open>__proto__\<close> the assignment reaches the setter of
  \<open>Object.prototype\<close>, which ignores a boolean: the object stays as it is.
\<close>

definition protoKey :: string where
  "protoKey = ''__proto__''"

primrec setOwn :: "string \<Rightarrow> bool \<Rightarrow> flags \<Rightarrow> flags" where
  "setOwn k v [] = [(k, v)]"
| "setOwn k v (p # ps) = (if fst p = k then (k, v) # ps else p # setOwn k v ps)"

definition setProp :: "string \<Rightarrow> bool \<Rightarrow> flags \<Rightarrow> flags" where
  "setProp k v m = (if k = protoKey \<and> map_of m k = None then m else setOwn k v m)"

text \<open>\<open>obj[k]\<close> read as a condition: the own property, else what is inherited.\<close>

definition getProp :: "flags \<Rightarrow> string \<Rightarrow> bool" where
  "getProp m k = (case map_of m k of Some b \<Rightarrow> b | None \<Rightarrow> k \<in> set protoNames)"

text \<open>\<open>Object.keys\<close> and \<open>Object.values\<close>.\<close>

definition objKeys :: "flags \<Rightarrow> string list" where
  "objKeys m = map fst m"

definition objValues :: "flags \<Rightarrow> bool list" where
  "objValues m = map snd m"

text \<open>
  An object reached through a reference held in an array is updated in place; the array
  is unchanged elsewhere. An index beyond the array changes nothing.
\<close>

fun modify_at :: "nat \<Rightarrow> ('a \<Rightarrow> 'a) \<Rightarrow> 'a list \<Rightarrow> 'a list" where
  "modify_at i f [] = []"
| "modify_at 0 f (x # xs) = f x # xs"
| "modify_at (Suc i) f (x # xs) = x # modify_at i f xs"

text \<open>The position of the element \<open>Array.prototype.find\<close> returns: the first match.\<close>

fun findIndex :: "('a \<Rightarrow> bool) \<Rightarrow> 'a list \<Rightarrow> nat option" where
  "findIndex P [] = None"
| "findIndex P (x # xs) =
     (if P x then Some 0 else map_option Suc (findIndex P xs))"

section \<open>The task catalog parser\<close>

text \<open>\<open>slug\<close>: lower case, each run of white space to one underscore, then only \<open>a-z0-9_\<close>.\<close>

fun replaceSpaces :: "bool \<Rightarrow> string \<Rightarrow> string" where
  "replaceSpaces inRun [] = []"
| "replaceSpaces inRun (c # cs) =
     (if isSpace c then (if inRun then replaceSpaces True cs else CHR ''_'' # replaceSpaces True cs)
      else c # replaceSpaces False cs)"

definition isSlugChar :: "char \<Rightarrow> bool" where
  "isSlugChar c =
     (let n = (of_char c :: nat) in (97 \<le> n \<and> n \<le> 122) \<or> (48 \<le> n \<and> n \<le> 57) \<or> c = CHR ''_'')"

definition slug :: "string \<Rightarrow> string" where
  "slug s = filter isSlugChar (replaceSpaces False (toLowerCase s))"

definition allDays :: "Day list" where
  "allDays = [''Mon'', ''Tue'', ''Wed'', ''Thu'', ''Fri'', ''Sat'', ''Sun'']"

definition parseDays :: "string option \<Rightarrow> Day list" where
  "parseDays dayStr =
     (if \<not> truthy dayStr \<or> toLowerCase (strval dayStr) = ''all'' then allDays
      else if toLowerCase (strval dayStr) = ''weekdays'' then [''Mon'', ''Tue'', ''Wed'', ''Thu'', ''Fri'']
      else if toLowerCase (strval dayStr) = ''weekend'' then [''Sat'', ''Sun'']
      else filter (\<lambda>d. d \<in> set allDays) (map trim (splitOn (CHR '','') (strval dayStr))))"

text \<open>The columns of a line: split at commas, double quotes removed, trimmed.\<close>

definition columnsOf :: "string \<Rightarrow> string list" where
  "columnsOf line = map (\<lambda>c. trim (filter (\<lambda>x. x \<noteq> CHR 0x22) c)) (splitOn (CHR '','') line)"

text \<open>The object literal of a parent task row and the one of a subtask row.\<close>

definition taskOfRow :: "string list \<Rightarrow> Task" where
  "taskOfRow columns =
     \<lparr> task_id = slug (strval (nth_opt columns 0)),
       task_name = strval (nth_opt columns 0),
       points = orZero (parseInt (strval (nth_opt columns 2))),
       timeStart = orUndefined (nth_opt columns 4),
       timeEnd = orUndefined (nth_opt columns 5),
       daysOfWeek = parseDays (nth_opt columns 6),
       subtasks = [],
       active = (nth_opt columns 11 = Some ''TRUE'') \<rparr>"

definition subtaskOfRow :: "string \<Rightarrow> string list \<Rightarrow> Subtask" where
  "subtaskOfRow currentName columns =
     \<lparr> sub_id = slug (currentName @ ''_'' @ strval (nth_opt columns 1)),
       sub_name = strval (nth_opt columns 1),
       subPoints = (if truthy (nth_opt columns 3)
                    then Some (parseInt (strval (nth_opt columns 3))) else None) \<rparr>"

text \<open>
  The state of the \<open>forEach\<close> in \<open>parseMasterTasks\<close>: the array \<open>this.masterTasks\<close> and
  the local \<open>currentTask\<close>, a reference to an element of that array (its index) or null.
\<close>

record ParseState =
  masterTasks :: "Task list"
  currentTask :: "nat option"

definition pushSubtask :: "Subtask \<Rightarrow> Task \<Rightarrow> Task" where
  "pushSubtask s t = t\<lparr>subtasks := subtasks t @ [s]\<rparr>"

definition parseLine :: "string \<Rightarrow> ParseState \<Rightarrow> ParseState" where
  "parseLine line st =
     (if trim line = [] then st
      else let columns = columnsOf line in
        if truthy (nth_opt columns 0)
        then \<lparr> masterTasks = masterTasks st @ [taskOfRow columns],
               currentTask = Some (length (masterTasks st)) \<rparr>
        else if truthy (nth_opt columns 1) \<and> currentTask st \<noteq> None
        then (case currentTask st of
                None \<Rightarrow> st
              | Some i \<Rightarrow>
                  (case nth_opt (masterTasks st) i of
                     None \<Rightarrow> st
                   | Some cur \<Rightarrow>
                       st\<lparr>masterTasks :=
                            modify_at i (pushSubtask (subtaskOfRow (task_name cur) columns))
                              (masterTasks st)\<rparr>))
        else st)"

definition parseMasterTasks :: "Task list \<Rightarrow> string \<Rightarrow> Task list" where
  "parseMasterTasks mt csv =
     masterTasks (fold parseLine (drop 1 (split_lines csv)) \<lparr>masterTasks = mt, currentTask = None\<rparr>)"

section \<open>The daily progress engine\<close>

text \<open>A \<open>Date\<close> is read through \<open>getDay()\<close> only, a number from 0 (Sunday) to 6.\<close>

datatype Date = Date (getDay: nat)

definition dayMap :: "Day list" where
  "dayMap = [''Sun'', ''Mon'', ''Tue'', ''Wed'', ''Thu'', ''Fri'', ''Sat'']"

definition isEligibleToday :: "Task \<Rightarrow> Date \<Rightarrow> bool" where
  "isEligibleToday t today =
     (if \<not> active t then False
      else (case nth_opt dayMap (getDay today) of
              None \<Rightarrow> False
            | Some todayDay \<Rightarrow> todayDay \<in> set (daysOfWeek t)))"

definition newInstance :: "Task \<Rightarrow> TaskInstance" where
  "newInstance t =
     \<lparr> inst_id = task_id t, task = t, completed = False,
       subtaskCompletion = foldl (\<lambda>acc sub. setProp (sub_id sub) False acc) [] (subtasks t) \<rparr>"

definition generateTodayInstances :: "Task list \<Rightarrow> Date \<Rightarrow> TaskInstance list" where
  "generateTodayInstances mt today = map newInstance (filter (\<lambda>t. isEligibleToday t today) mt)"

text \<open>
  \<open>updateProgress\<close>: the body of the \<open>forEach\<close> over the instances with its two
  accumulators, then the quotient. Of what it writes to the page the model keeps the
  numbers and the condition of the all-done banner.
\<close>

definition earnedSubPoints :: "TaskInstance \<Rightarrow> number" where
  "earnedSubPoints inst =
     (let subs = subtasks (task inst);
          hasDefinedSubPoints = list_ex (\<lambda>s. subPoints s \<noteq> None) subs
      in if hasDefinedSubPoints
         then foldl (\<lambda>earned sub.
                 if getProp (subtaskCompletion inst) (sub_id sub)
                 then numAdd earned (case subPoints sub of None \<Rightarrow> Fin 0 | Some n \<Rightarrow> orZero n)
                 else earned) (Fin 0) subs
         else (let completedCount = length (filter (\<lambda>b. b) (objValues (subtaskCompletion inst)))
               in if length subs > 0
                  then numMul (Fin (of_nat completedCount))
                         (numDiv (points (task inst)) (Fin (of_nat (length subs))))
                  else Fin 0))"

definition progressStep :: "number \<times> number \<Rightarrow> TaskInstance \<Rightarrow> number \<times> number" where
  "progressStep acc inst =
     (let currentPoints = fst acc;
          totalPoints = numAdd (snd acc) (points (task inst))
      in if completed inst then (numAdd currentPoints (points (task inst)), totalPoints)
         else if length (subtasks (task inst)) > 0
         then (numAdd currentPoints (numMin (earnedSubPoints inst) (points (task inst))), totalPoints)
         else (currentPoints, totalPoints))"

record Progress =
  currentPoints :: number
  totalPoints :: number
  progressPercent :: number
  allDone :: bool

definition updateProgress :: "TaskInstance list \<Rightarrow> Progress" where
  "updateProgress todayInstances =
     (let acc = foldl progressStep (Fin 0, Fin 0) todayInstances;
          percent = (if numGt (snd acc) (Fin 0) then numDiv (fst acc) (snd acc) else Fin 0)
      in \<lparr> currentPoints = fst acc, totalPoints = snd acc, progressPercent = percent,
           allDone = (length todayInstances > 0 \<and> percent = Fin 1) \<rparr>)"

text \<open>
  The two handlers: \<open>find\<close> the first instance with the id, return when there is none,
  otherwise update that instance in place.
\<close>

definition toggleTask :: "bool \<Rightarrow> TaskInstance \<Rightarrow> TaskInstance" where
  "toggleTask isChecked inst =
     inst\<lparr> completed := isChecked,
           subtaskCompletion :=
             foldl (\<lambda>m subId. setProp subId isChecked m) (subtaskCompletion inst)
               (objKeys (subtaskCompletion inst)) \<rparr>"

definition toggleSubtask :: "string \<Rightarrow> bool \<Rightarrow> TaskInstance \<Rightarrow> TaskInstance" where
  "toggleSubtask subtaskId isChecked inst =
     (let m = setProp subtaskId isChecked (subtaskCompletion inst)
      in inst\<lparr> subtaskCompletion := m, completed := list_all (\<lambda>b. b) (objValues m) \<rparr>)"

definition handleTaskToggle :: "TaskInstance list \<Rightarrow> string \<Rightarrow> bool \<Rightarrow> TaskInstance list" where
  "handleTaskToggle todayInstances instanceId isChecked =
     (case findIndex (\<lambda>i. inst_id i = instanceId) todayInstances of
        None \<Rightarrow> todayInstances
      | Some k \<Rightarrow> modify_at k (toggleTask isChecked) todayInstances)"

definition handleSubtaskToggle ::
  "TaskInstance list \<Rightarrow> string \<Rightarrow> string \<Rightarrow> bool \<Rightarrow> TaskInstance list" where
  "handleSubtaskToggle todayInstances instanceId subtaskId isChecked =
     (case findIndex (\<lambda>i. inst_id i = instanceId) todayInstances of
        None \<Rightarrow> todayInstances
      | Some k \<Rightarrow> modify_at k (toggleSubtask subtaskId isChecked) todayInstances)"

section \<open>The specification's reading of the parser and of the aggregation\<close>

text \<open>
  The rows of a text are its lines after the header. A task row has a non-empty
  task-name field; a subtask row has an empty task-name field and a non-empty
  subtask-name field.
\<close>

definition dataRows :: "string \<Rightarrow> string list" where
  "dataRows csv = drop 1 (split_lines csv)"

definition taskNameField :: "string \<Rightarrow> string option" where
  "taskNameField row = nth_opt (columnsOf row) 0"

definition subtaskNameField :: "string \<Rightarrow> string option" where
  "subtaskNameField row = nth_opt (columnsOf row) 1"

definition isTaskRow :: "string \<Rightarrow> bool" where
  "isTaskRow row = truthy (taskNameField row)"

definition isSubtaskRow :: "string \<Rightarrow> bool" where
  "isSubtaskRow row = (\<not> truthy (taskNameField row) \<and> truthy (subtaskNameField row))"

text \<open>
  One task per task row, in the order of the rows; its subtasks are the subtask rows
  between it and the next task row. Every other row yields nothing.
\<close>

definition subtasksAfter :: "Task \<Rightarrow> string list \<Rightarrow> Subtask list" where
  "subtasksAfter t rows =
     map (\<lambda>row. subtaskOfRow (task_name t) (columnsOf row))
       (filter isSubtaskRow (takeWhile (\<lambda>row. \<not> isTaskRow row) rows))"

fun specTasks :: "string list \<Rightarrow> Task list" where
  "specTasks [] = []"
| "specTasks (row # rows) =
     (if isTaskRow row
      then (taskOfRow (columnsOf row))\<lparr>subtasks := subtasksAfter (taskOfRow (columnsOf row)) rows\<rparr>
             # specTasks rows
      else specTasks rows)"

text \<open>
  The earned contribution of one instance, read off the description of the aggregation.
  The sum of a list of numbers; the weight of a subtask, which is its \<open>subPoints\<close> and 0
  when that is undefined or not a number; the subtasks whose completion flag, their
  entry in the record, is true.
\<close>

fun numSum :: "number list \<Rightarrow> number" where
  "numSum [] = Fin 0"
| "numSum (x # xs) = numAdd x (numSum xs)"

definition subPointsValue :: "Subtask \<Rightarrow> number" where
  "subPointsValue s = (case subPoints s of None \<Rightarrow> Fin 0 | Some NaN \<Rightarrow> Fin 0 | Some n \<Rightarrow> n)"

definition flagTrue :: "TaskInstance \<Rightarrow> Subtask \<Rightarrow> bool" where
  "flagTrue inst s = (map_of (subtaskCompletion inst) (sub_id s) = Some True)"

definition completedSubtasks :: "TaskInstance \<Rightarrow> Subtask list" where
  "completedSubtasks inst = filter (flagTrue inst) (subtasks (task inst))"

definition trueEntries :: "TaskInstance \<Rightarrow> nat" where
  "trueEntries inst = length (filter snd (subtaskCompletion inst))"

definition definesSubPoints :: "Task \<Rightarrow> bool" where
  "definesSubPoints t = (\<exists>s \<in> set (subtasks t). subPoints s \<noteq> None)"

definition specEarned :: "(TaskInstance \<Rightarrow> nat) \<Rightarrow> TaskInstance \<Rightarrow> number" where
  "specEarned completedCount inst =
     (let t = task inst; p = points t in
      if completed inst then p
      else if subtasks t \<noteq> [] \<and> definesSubPoints t
      then numMin (numSum (map subPointsValue (completedSubtasks inst))) p
      else if subtasks t \<noteq> []
      then numMin (numMul (Fin (of_nat (completedCount inst)))
                    (numDiv p (Fin (of_nat (length (subtasks t)))))) p
      else Fin 0)"

text \<open>An instance with exactly one entry of \<open>subtaskCompletion\<close> for each of its subtasks.\<close>

definition oneEntryPerSubtask :: "TaskInstance \<Rightarrow> bool" where
  "oneEntryPerSubtask inst =
     (distinct (map sub_id (subtasks (task inst))) \<and>
      distinct (objKeys (subtaskCompletion inst)) \<and>
      set (objKeys (subtaskCompletion inst)) = set (map sub_id (subtasks (task inst))))"

text \<open>An instance none of whose subtasks has an id that \<open>Object.prototype\<close> defines.\<close>

definition plainSubtaskIds :: "TaskInstance \<Rightarrow> bool" where
  "plainSubtaskIds inst = (\<forall>s \<in> set (subtasks (task inst)). sub_id s \<notin> set protoNames)"

text \<open>The invariant of the data model: the keys are the ids of the subtasks.\<close>

definition keysMatch :: "TaskInstance \<Rightarrow> bool" where
  "keysMatch inst =
     (set (objKeys (subtaskCompletion inst)) = set (map sub_id (subtasks (task inst))))"



section \<open>Example data\<close>

definition exSub :: "string \<Rightarrow> number option \<Rightarrow> Subtask" where
  "exSub i sp = \<lparr> sub_id = i, sub_name = i, subPoints = sp \<rparr>"

definition exTask :: "string \<Rightarrow> rat \<Rightarrow> Day list \<Rightarrow> Subtask list \<Rightarrow> bool \<Rightarrow> Task" where
  "exTask i p ds subs a =
     \<lparr> task_id = i, task_name = i, points = Fin p, timeStart = None, timeEnd = None,
       daysOfWeek = ds, subtasks = subs, active = a \<rparr>"

text \<open>A task without subtasks, and one with three subtasks of which two share an id.\<close>

definition exWalk :: Task where
  "exWalk = exTask ''walk'' 10 [''Sat'', ''Sun''] [] True"

definition exYoga :: Task where
  "exYoga = exTask ''yoga'' 9 allDays
     [exSub ''yoga_stretch'' None, exSub ''yoga_stretch'' None, exSub ''yoga_breathe'' None] True"

definition exRead :: Task where
  "exRead = exTask ''read'' 10 [''Mon'', ''Wed''] [exSub ''read_a'' (Some (Fin 4)), exSub ''read_b'' (Some (Fin 6))] True"

definition exOff :: Task where
  "exOff = exTask ''off'' 5 allDays [] False"

text \<open>A second task whose name normalises to the id of \<open>exYoga\<close>.\<close>

definition exYoga2 :: Task where
  "exYoga2 = exTask ''yoga'' 4 allDays [exSub ''yoga_nap'' None] True"

text \<open>
  A text with a header, a subtask row before any task row, a task row, two subtask rows
  of the same name, a blank row, a row with neither name, a third subtask row and a
  second task row.
\<close>

definition exCsv :: string where
  "exCsv = ''Task,Subtask,Points,SubPoints,Start,End,Days,,,,,Active'' @ [CHR 0x0D, CHR 0x0A]
     @ '',Orphan'' @ [CHR 0x0A]
     @ ''Yoga,,9,,,,all,,,,,TRUE'' @ [CHR 0x0A]
     @ '',Stretch'' @ [CHR 0x0D, CHR 0x0A]
     @ '',Stretch'' @ [CHR 0x0A]
     @ ''  '' @ [CHR 0x0A]
     @ '',,7'' @ [CHR 0x0A]
     @ '',Breathe'' @ [CHR 0x0A]
     @ ''Walk,,10,,,,weekend,,,,,TRUE''"

text \<open>The instances of \<open>exYoga\<close> after the subtask shared by two rows has been ticked.\<close>

definition exYogaTicked :: "TaskInstance list" where
  "exYogaTicked =
     handleSubtaskToggle (generateTodayInstances [exYoga] (Date 1)) ''yoga'' ''yoga_stretch'' True"

text \<open>
  A text whose task is named by an underscore and has the subtask \<open>proto__\<close>, so that
  the id of the subtask is \<open>__proto__\<close>; the instances made of it for a Monday.
\<close>

definition exProtoCsv :: string where
  "exProtoCsv = ''Task,Subtask,Points,SubPoints,Start,End,Days,,,,,Active'' @ [CHR 0x0A]
     @ ''_,,4,,,,all,,,,,TRUE'' @ [CHR 0x0A]
     @ '',proto__,,4''"

definition exProto :: "TaskInstance list" where
  "exProto = generateTodayInstances (parseMasterTasks [] exProtoCsv) (Date 1)"

text \<open>The task that \<open>exProtoCsv\<close> describes.\<close>

definition exProtoTask :: Task where
  "exProtoTask =
     \<lparr> task_id = ''_'', task_name = ''_'', points = Fin 4, timeStart = None, timeEnd = None,
       daysOfWeek = allDays,
       subtasks = [\<lparr> sub_id = protoKey, sub_name = ''proto__'', subPoints = Some (Fin 4) \<rparr>],
       active = True \<rparr>"

text \<open>
  An instance each of whose subtasks has an entry of its own in the record or an id that
  \<open>Object.prototype\<close> does not define: the flag of a subtask is then what its entry says.
\<close>

definition readsOwn :: "TaskInstance \<Rightarrow> bool" where
  "readsOwn inst = (\<forall>s \<in> set (subtasks (task inst)).
     sub_id s \<in> fst ` set (subtaskCompletion inst) \<or> sub_id s \<notin> set protoNames)"

section \<open>Properties of the object and array operations\<close>


lemma setOwn_key_set: "fst ` set (setOwn k v m) = insert k (fst ` set m)"
  by (induction m) auto





lemma own_key_iff: "map_of m k = None \<longleftrightarrow> k \<notin> fst ` set m"
  by (simp add: map_of_eq_None_iff)

lemma setProp_own: "k \<in> fst ` set m \<Longrightarrow> setProp k v m = setOwn k v m"
  by (simp add: setProp_def own_key_iff)

lemma setProp_plain: "k \<noteq> protoKey \<Longrightarrow> setProp k v m = setOwn k v m"
  by (simp add: setProp_def)

lemma setProp_proto: "protoKey \<notin> fst ` set m \<Longrightarrow> setProp protoKey v m = m"
  by (simp add: setProp_def own_key_iff)

lemma setProp_key_set:
  "fst ` set (setProp k v m)
   = (if k = protoKey \<and> k \<notin> fst ` set m then fst ` set m else insert k (fst ` set m))"
  by (auto simp: setProp_def own_key_iff setOwn_key_set)





lemma insert_union_diff: "x \<noteq> p \<Longrightarrow> insert x A \<union> (B - {p}) = A \<union> (insert x B - {p})"
  by auto

lemma newFlags_keys_set:
  "fst ` set (foldl (\<lambda>acc sub. setProp (sub_id sub) False acc) m subs)
   = fst ` set m \<union> (sub_id ` set subs - {protoKey})"
proof (induction subs arbitrary: m)
  case Nil
  show ?case by simp
next
  case (Cons s subs)
  let ?m' = "setProp (sub_id s) False m"
  have step: "fst ` set ?m' \<union> (sub_id ` set subs - {protoKey})
              = fst ` set m \<union> (sub_id ` set (s # subs) - {protoKey})"
  proof (cases "sub_id s = protoKey")
    case True
    show ?thesis
    proof (cases "protoKey \<in> fst ` set m")
      case True
      with \<open>sub_id s = protoKey\<close> show ?thesis
        by (simp add: setProp_key_set insert_absorb)
    next
      case False
      with \<open>sub_id s = protoKey\<close> show ?thesis
        by (simp add: setProp_key_set)
    qed
  next
    case False
    then have "fst ` set ?m' = insert (sub_id s) (fst ` set m)" by (simp add: setProp_key_set)
    with False show ?thesis by (simp only: list.set image_insert) (rule insert_union_diff)
  qed
  have "fst ` set (foldl (\<lambda>acc sub. setProp (sub_id sub) False acc) m (s # subs))
        = fst ` set ?m' \<union> (sub_id ` set subs - {protoKey})"
    using Cons.IH [of ?m'] by simp
  with step show ?case by simp
qed



lemma findIndex_Some:
  "findIndex P xs = Some k \<Longrightarrow> k < length xs \<and> P (xs ! k) \<and> (\<forall>j < k. \<not> P (xs ! j))"
proof (induction xs arbitrary: k)
  case Nil
  then show ?case by simp
next
  case (Cons x xs)
  show ?case
  proof (cases "P x")
    case True
    with Cons.prems show ?thesis by simp
  next
    case False
    with Cons.prems obtain k' where k': "findIndex P xs = Some k'" "k = Suc k'" by auto
    from Cons.IH [OF k'(1)] False k'(2) show ?thesis
      by (auto simp: nth_Cons less_Suc_eq_0_disj split: nat.splits)
  qed
qed

lemma findIndex_None: "findIndex P xs = None \<longleftrightarrow> (\<forall>x \<in> set xs. \<not> P x)"
  by (induction xs) auto

lemma modify_at_eq: "modify_at k f xs = (if k < length xs then xs[k := f (xs ! k)] else xs)"
  by (induction k f xs rule: modify_at.induct) auto

lemma findIndex_le:
  assumes "i < length xs" "P (xs ! i)"
  shows "\<exists>k \<le> i. findIndex P xs = Some k"
proof (cases "findIndex P xs")
  case None
  with assms show ?thesis by (auto simp: findIndex_None)
next
  case (Some k)
  from findIndex_Some [OF Some] assms(2) have "\<not> i < k" by auto
  with Some show ?thesis by auto
qed

lemmas example_defs =
  exSub_def exTask_def exWalk_def exYoga_def exYoga2_def exRead_def exOff_def allDays_def

lemmas string_defs =
  toLowerCase_def lowerChar_def trim_def isSpace_def splitOn_def truthy_def strval_def

section \<open>The example whose subtask id is inherited\<close>

lemma protoKey_inherited: "protoKey \<in> set protoNames"
  by (simp add: protoKey_def protoNames_def)

lemma toDouble_small: "n < safeBound \<Longrightarrow> toDouble n = Fin (of_nat n)"
  by (simp add: toDouble_def)

lemma parse_exProtoCsv: "parseMasterTasks [] exProtoCsv = [exProtoTask]"
proof -
  have rows: "drop 1 (split_lines exProtoCsv) = [''_,,4,,,,all,,,,,TRUE'', '',proto__,,4'']"
    by (simp add: exProtoCsv_def split_lines_def)
  have cols: "columnsOf ''_,,4,,,,all,,,,,TRUE''
                = [''_'', '''', ''4'', '''', '''', '''', ''all'', '''', '''', '''', '''', ''TRUE'']"
    "columnsOf '',proto__,,4'' = ['''', ''proto__'', '''', ''4'']"
    by (simp_all add: columnsOf_def splitOn_def trim_def isSpace_def)
  have four: "parseInt ''4'' = Fin 4"
    by (simp add: parseInt_def digitRun_def startsWithMinus_def isSpace_def isDigit_def
        digitsValue_def toDouble_small safeBound_def)
  have slugs: "slug ''_'' = ''_''" "slug ''__proto__'' = protoKey"
    by (simp_all add: slug_def toLowerCase_def lowerChar_def isSpace_def isSlugChar_def protoKey_def)
  have t: "taskOfRow [''_'', '''', ''4'', '''', '''', '''', ''all'', '''', '''', '''', '''', ''TRUE'']
           = exProtoTask\<lparr>subtasks := []\<rparr>"
    by (simp add: taskOfRow_def nth_opt_def strval_def truthy_def orUndefined_def four orZero_def
        slugs parseDays_def toLowerCase_def lowerChar_def exProtoTask_def)
  have s: "subtaskOfRow ''_'' ['''', ''proto__'', '''', ''4'']
           = \<lparr> sub_id = protoKey, sub_name = ''proto__'', subPoints = Some (Fin 4) \<rparr>"
    by (simp add: subtaskOfRow_def nth_opt_def strval_def truthy_def four slugs)
  have 1: "parseLine ''_,,4,,,,all,,,,,TRUE'' \<lparr>masterTasks = [], currentTask = None\<rparr>
           = \<lparr>masterTasks = [exProtoTask\<lparr>subtasks := []\<rparr>], currentTask = Some 0\<rparr>"
    by (simp add: parseLine_def cols t nth_opt_def truthy_def) (simp add: trim_def isSpace_def)
  have 2: "parseLine '',proto__,,4'' \<lparr>masterTasks = [exProtoTask\<lparr>subtasks := []\<rparr>], currentTask = Some 0\<rparr>
           = \<lparr>masterTasks = [exProtoTask], currentTask = Some 0\<rparr>"
    by (simp add: parseLine_def cols nth_opt_def truthy_def pushSubtask_def)
       (simp add: trim_def isSpace_def exProtoTask_def s)
  show ?thesis unfolding parseMasterTasks_def rows by (simp add: 1 2)
qed

lemma exProto_eq:
  "exProto = [\<lparr> inst_id = ''_'', task = exProtoTask, completed = False, subtaskCompletion = [] \<rparr>]"
  by (simp add: exProto_def parse_exProtoCsv generateTodayInstances_def isEligibleToday_def
      nth_opt_def dayMap_def newInstance_def setProp_def)
     (simp add: exProtoTask_def allDays_def setProp_def)

section \<open>Selection of today's instances\<close>

lemma newInstance_fields:
  "inst_id (newInstance t) = task_id t" "task (newInstance t) = t" "\<not> completed (newInstance t)"
  by (simp_all add: newInstance_def)


lemma newInstance_keys:
  "fst ` set (subtaskCompletion (newInstance t)) = sub_id ` set (subtasks t) - {protoKey}"
  by (simp add: newInstance_def newFlags_keys_set)








section \<open>The percentage\<close>

text \<open>
  C7. The percentage is the quotient of the current and the total points when the total
  is positive, and 0 otherwise; for the empty list of instances the percentage and the
  total are both 0.
\<close>

theorem updateProgress_percent:
  "progressPercent (updateProgress insts)
     = (if numGt (totalPoints (updateProgress insts)) (Fin 0)
        then numDiv (currentPoints (updateProgress insts)) (totalPoints (updateProgress insts))
        else Fin 0)
   \<and> progressPercent (updateProgress []) = Fin 0 \<and> totalPoints (updateProgress []) = Fin 0"
  by (simp add: updateProgress_def Let_def)

theorem updateProgress_percent_witness:
  "progressPercent (updateProgress [newInstance exWalk, toggleTask True (newInstance exRead)]) = Fin (1 / 2)"
proof -
  have "foldl progressStep (Fin 0, Fin 0) [newInstance exWalk, toggleTask True (newInstance exRead)]
        = (Fin 10, Fin 20)"
    by (simp add: example_defs progressStep_def newInstance_def toggleTask_def)
  then have "totalPoints (updateProgress [newInstance exWalk, toggleTask True (newInstance exRead)]) = Fin 20"
    and "currentPoints (updateProgress [newInstance exWalk, toggleTask True (newInstance exRead)]) = Fin 10"
    by (simp_all add: updateProgress_def)
  with updateProgress_percent [of "[newInstance exWalk, toggleTask True (newInstance exRead)]"]
  show ?thesis by simp
qed

section \<open>Instances that share an id\<close>

text \<open>
  C10. When an instance at position \<open>i\<close> carries the id a toggle is addressed to, both
  handlers update the first position \<open>k\<close> whose instance has that id and nothing else;
  any instance at a later position \<open>j\<close>, with the same id or not, is left as it was.
\<close>

theorem toggles_address_first_match:
  assumes "i < j" and "j < length insts" and "inst_id (insts ! i) = iid"
  shows "\<exists>k \<le> i. inst_id (insts ! k) = iid \<and> (\<forall>l < k. inst_id (insts ! l) \<noteq> iid)
           \<and> handleTaskToggle insts iid b = insts[k := toggleTask b (insts ! k)]
           \<and> handleSubtaskToggle insts iid sid b = insts[k := toggleSubtask sid b (insts ! k)]
           \<and> handleTaskToggle insts iid b ! j = insts ! j
           \<and> handleSubtaskToggle insts iid sid b ! j = insts ! j"
proof -
  from assms have "i < length insts" by simp
  with assms(3) obtain k where k: "k \<le> i" "findIndex (\<lambda>x. inst_id x = iid) insts = Some k"
    using findIndex_le [of i insts "\<lambda>x. inst_id x = iid"] by auto
  from findIndex_Some [OF k(2)]
  have first: "k < length insts" "inst_id (insts ! k) = iid" "\<forall>l < k. inst_id (insts ! l) \<noteq> iid"
    by auto
  have t: "handleTaskToggle insts iid b = insts[k := toggleTask b (insts ! k)]"
    using k(2) first(1) by (simp add: handleTaskToggle_def modify_at_eq)
  have s: "handleSubtaskToggle insts iid sid b = insts[k := toggleSubtask sid b (insts ! k)]"
    using k(2) first(1) by (simp add: handleSubtaskToggle_def modify_at_eq)
  from k(1) assms(1) have "k \<noteq> j" by simp
  then have "handleTaskToggle insts iid b ! j = insts ! j"
    and "handleSubtaskToggle insts iid sid b ! j = insts ! j"
    by (simp_all add: t s)
  with k(1) first t s show ?thesis by blast
qed

theorem toggles_address_first_match_witness:
  "inst_id ([newInstance exYoga, newInstance exYoga2] ! 0) = ''yoga''
   \<and> inst_id ([newInstance exYoga, newInstance exYoga2] ! 1) = ''yoga''
   \<and> handleTaskToggle [newInstance exYoga, newInstance exYoga2] ''yoga'' True ! 1 = newInstance exYoga2
   \<and> handleSubtaskToggle [newInstance exYoga, newInstance exYoga2] ''yoga'' ''yoga_nap'' True ! 1
       = newInstance exYoga2"
proof -
  let ?insts = "[newInstance exYoga, newInstance exYoga2]"
  have h: "(0::nat) < 1" "1 < length ?insts" "inst_id (?insts ! 0) = ''yoga''"
    by (simp_all add: newInstance_fields exYoga_def exTask_def)
  have "inst_id (?insts ! 1) = ''yoga''"
    by (simp add: newInstance_fields exYoga2_def exTask_def)
  with h(3) toggles_address_first_match [OF h, of True "''yoga_nap''"]
  show ?thesis by auto
qed

section \<open>The two toggles\<close>


lemma foldl_setProp_key_set:
  "set ks \<subseteq> fst ` set m \<Longrightarrow> fst ` set (foldl (\<lambda>acc k. setProp k v acc) m ks) = fst ` set m"
proof (induction ks arbitrary: m)
  case Nil
  show ?case by simp
next
  case (Cons k ks)
  then have k: "k \<in> fst ` set m" by simp
  then have keys: "fst ` set (setProp k v m) = fst ` set m"
    by (simp add: setProp_own setOwn_key_set insert_absorb)
  with Cons.prems have "set ks \<subseteq> fst ` set (setProp k v m)" by simp
  from Cons.IH [OF this] keys show ?case by simp
qed


lemma toggleSubtask_fields:
  "inst_id (toggleSubtask sid b inst) = inst_id inst" "task (toggleSubtask sid b inst) = task inst"
  "subtaskCompletion (toggleSubtask sid b inst) = setProp sid b (subtaskCompletion inst)"
  "completed (toggleSubtask sid b inst) = (\<forall>p \<in> set (setProp sid b (subtaskCompletion inst)). snd p)"
  by (auto simp: toggleSubtask_def Let_def objValues_def list_all_iff)

lemma handleTaskToggle_at:
  "findIndex (\<lambda>x. inst_id x = iid) insts = Some k \<Longrightarrow>
   handleTaskToggle insts iid b = insts[k := toggleTask b (insts ! k)]"
  by (auto simp: handleTaskToggle_def modify_at_eq dest: findIndex_Some)

lemma handleSubtaskToggle_at:
  "findIndex (\<lambda>x. inst_id x = iid) insts = Some k \<Longrightarrow>
   handleSubtaskToggle insts iid sid b = insts[k := toggleSubtask sid b (insts ! k)]"
  by (auto simp: handleSubtaskToggle_def modify_at_eq dest: findIndex_Some)






section \<open>The keys of the completion record\<close>

lemma keysMatch_newInstance:
  "protoKey \<notin> sub_id ` set (subtasks t) \<Longrightarrow> keysMatch (newInstance t)"
  by (simp add: keysMatch_def objKeys_def newInstance_keys newInstance_fields)

lemma keysMatch_toggleTask: "keysMatch inst \<Longrightarrow> keysMatch (toggleTask b inst)"
  by (simp add: keysMatch_def objKeys_def toggleTask_def foldl_setProp_key_set)

lemma keysMatch_toggleSubtask:
  assumes "keysMatch inst"
  shows "keysMatch (toggleSubtask sid b inst)
         \<longleftrightarrow> sid \<in> sub_id ` set (subtasks (task inst)) \<or> sid = protoKey"
proof -
  from assms have keys: "fst ` set (subtaskCompletion inst) = sub_id ` set (subtasks (task inst))"
    by (simp add: keysMatch_def objKeys_def)
  show ?thesis
  proof (cases "sid \<in> sub_id ` set (subtasks (task inst))")
    case True
    with keys have "fst ` set (setProp sid b (subtaskCompletion inst)) = fst ` set (subtaskCompletion inst)"
      by (simp add: setProp_own setOwn_key_set insert_absorb)
    with True keys show ?thesis
      by (simp add: keysMatch_def objKeys_def toggleSubtask_fields)
  next
    case False
    show ?thesis
    proof (cases "sid = protoKey")
      case True
      with False keys have "setProp sid b (subtaskCompletion inst) = subtaskCompletion inst"
        by (simp add: setProp_proto)
      with True keys show ?thesis
        by (simp add: keysMatch_def objKeys_def toggleSubtask_fields)
    next
      case notproto: False
      then have "fst ` set (setProp sid b (subtaskCompletion inst))
                 = insert sid (sub_id ` set (subtasks (task inst)))"
        by (simp add: setProp_plain setOwn_key_set keys)
      moreover from False have "insert sid (sub_id ` set (subtasks (task inst)))
                 \<noteq> sub_id ` set (subtasks (task inst))" by blast
      ultimately show ?thesis using False notproto
        by (simp add: keysMatch_def objKeys_def toggleSubtask_fields)
    qed
  qed
qed

lemma list_all_update:
  assumes "list_all P xs" and "k < length xs \<Longrightarrow> P y"
  shows "list_all P (xs[k := y])"
proof (cases "k < length xs")
  case True
  with assms set_update_subset_insert [of xs k y] show ?thesis
    by (auto simp: list_all_iff)
next
  case False
  then have "length xs \<le> k" by simp
  then have "xs[k := y] = xs" by (rule list_update_beyond)
  with assms(1) show ?thesis by simp
qed

text \<open>
  C8, amended. The keys of the completion record are the ids of the task's subtasks
  for every generated instance none of whose subtask ids is \<open>__proto__\<close>;
  \<open>handleTaskToggle\<close> keeps this for all instances with any arguments;
  \<open>handleSubtaskToggle\<close> keeps it when the subtask id is an id of a subtask of the
  instance it locates; on a single instance the subtask toggle keeps it exactly when
  the id is a subtask's or is \<open>__proto__\<close>, which is never stored as a new key.
\<close>

theorem keysMatch_preserved:
  "(\<forall>inst \<in> set (generateTodayInstances mt today).
       protoKey \<notin> sub_id ` set (subtasks (task inst)) \<longrightarrow> keysMatch inst)
   \<and> (list_all keysMatch insts \<longrightarrow> list_all keysMatch (handleTaskToggle insts iid b))
   \<and> (list_all keysMatch insts \<longrightarrow>
        (\<forall>k. findIndex (\<lambda>x. inst_id x = iid) insts = Some k
               \<longrightarrow> sid \<in> sub_id ` set (subtasks (task (insts ! k)))) \<longrightarrow>
        list_all keysMatch (handleSubtaskToggle insts iid sid b))
   \<and> (keysMatch inst \<longrightarrow>
        (keysMatch (toggleSubtask sid b inst)
           \<longleftrightarrow> sid \<in> sub_id ` set (subtasks (task inst)) \<or> sid = protoKey))"
proof -
  have 1: "keysMatch inst" if "inst \<in> set (generateTodayInstances mt today)"
    and "protoKey \<notin> sub_id ` set (subtasks (task inst))" for inst
  proof -
    from that(1) obtain t where "inst = newInstance t"
      by (auto simp: generateTodayInstances_def)
    with that(2) show ?thesis by (simp add: keysMatch_newInstance newInstance_fields)
  qed
  have 2: "list_all keysMatch (handleTaskToggle insts iid b)" if inv: "list_all keysMatch insts"
  proof (cases "findIndex (\<lambda>x. inst_id x = iid) insts")
    case None
    with inv show ?thesis by (simp add: handleTaskToggle_def)
  next
    case (Some k)
    have "keysMatch (toggleTask b (insts ! k))" if "k < length insts"
      using inv that by (simp add: list_all_length keysMatch_toggleTask)
    with inv show ?thesis by (simp add: handleTaskToggle_at [OF Some] list_all_update)
  qed
  have 3: "list_all keysMatch (handleSubtaskToggle insts iid sid b)"
    if inv: "list_all keysMatch insts"
      and known: "\<forall>k. findIndex (\<lambda>x. inst_id x = iid) insts = Some k
                      \<longrightarrow> sid \<in> sub_id ` set (subtasks (task (insts ! k)))"
  proof (cases "findIndex (\<lambda>x. inst_id x = iid) insts")
    case None
    with inv show ?thesis by (simp add: handleSubtaskToggle_def)
  next
    case (Some k)
    have "keysMatch (toggleSubtask sid b (insts ! k))" if "k < length insts"
      using inv that known Some by (simp add: list_all_length keysMatch_toggleSubtask)
    with inv show ?thesis by (simp add: handleSubtaskToggle_at [OF Some] list_all_update)
  qed
  from 1 2 3 keysMatch_toggleSubtask show ?thesis by blast
qed

theorem keysMatch_preserved_witness:
  "list_all keysMatch (generateTodayInstances [exWalk, exRead] (Date 1))
   \<and> list_all keysMatch
       (handleSubtaskToggle (generateTodayInstances [exWalk, exRead] (Date 1)) ''read'' ''read_a'' True)"
proof -
  have gen: "generateTodayInstances [exWalk, exRead] (Date 1) = [newInstance exRead]"
    by (simp add: generateTodayInstances_def isEligibleToday_def nth_opt_def dayMap_def example_defs)
  let ?insts = "[newInstance exRead]"
  have np: "protoKey \<notin> sub_id ` set (subtasks (task (newInstance exRead)))"
    by (simp add: newInstance_fields example_defs protoKey_def)
  have "\<forall>inst \<in> set (generateTodayInstances [exWalk, exRead] (Date 1)).
          protoKey \<notin> sub_id ` set (subtasks (task inst)) \<longrightarrow> keysMatch inst"
    using keysMatch_preserved [of "[exWalk, exRead]" "Date 1" ?insts "''read''" True "''read_a''"]
    by (rule conjunct1)
  with np have inv: "list_all keysMatch ?insts" unfolding gen by simp
  have "findIndex (\<lambda>x. inst_id x = ''read'') ?insts = Some 0"
    by (simp add: newInstance_fields example_defs)
  moreover have "''read_a'' \<in> sub_id ` set (subtasks (task (?insts ! 0)))"
    by (simp add: newInstance_fields example_defs)
  ultimately have "\<forall>k. findIndex (\<lambda>x. inst_id x = ''read'') ?insts = Some k
                       \<longrightarrow> ''read_a'' \<in> sub_id ` set (subtasks (task (?insts ! k)))"
    by simp
  with inv keysMatch_preserved [of "[]" "Date 0" ?insts "''read''" True "''read_a''"]
  show ?thesis unfolding gen by blast
qed

text \<open>
  The claim as stated fails: a subtask toggle with an id that is not a subtask's adds a key.
\<close>

theorem keysMatch_counterexample:
  "list_all keysMatch [newInstance exRead]
   \<and> \<not> list_all keysMatch (handleSubtaskToggle [newInstance exRead] ''read'' ''zzz'' True)"
proof -
  have i: "findIndex (\<lambda>x. inst_id x = ''read'') [newInstance exRead] = Some 0"
    by (simp add: newInstance_fields example_defs)
  have np: "protoKey \<notin> sub_id ` set (subtasks exRead)"
    by (simp add: example_defs protoKey_def)
  have "keysMatch (toggleSubtask ''zzz'' True (newInstance exRead))
        \<longleftrightarrow> ''zzz'' \<in> sub_id ` set (subtasks (task (newInstance exRead))) \<or> ''zzz'' = protoKey"
    by (rule keysMatch_toggleSubtask [OF keysMatch_newInstance [OF np]])
  moreover have "''zzz'' \<notin> sub_id ` set (subtasks (task (newInstance exRead)))"
    by (simp add: newInstance_fields example_defs)
  moreover have "''zzz'' \<noteq> protoKey" by (simp add: protoKey_def)
  ultimately have "\<not> keysMatch (toggleSubtask ''zzz'' True (newInstance exRead))" by blast
  then show ?thesis
    by (simp add: handleSubtaskToggle_at [OF i] keysMatch_newInstance [OF np])
qed

section \<open>A subtask toggle on a task without subtasks\<close>




section \<open>Decoding of the days field\<close>

lemma parseDays_canonical: "set (parseDays d) \<subseteq> set allDays"
  by (auto simp: parseDays_def allDays_def)

text \<open>
  C5, amended. An absent or empty value and any value that is \<open>all\<close> in lower case give
  the seven tags; a value that is \<open>weekdays\<close> in lower case gives Mon to Fri, one that is
  \<open>weekend\<close> gives Sat and Sun. Any other value is split at commas, the tokens are
  trimmed and those that are, letter for letter, one of the seven tags are kept. The
  result consists of canonical tags for every value.
\<close>

theorem parseDays_decoding:
  "(\<not> truthy d \<or> toLowerCase (strval d) = ''all'' \<longrightarrow> parseDays d = allDays)
   \<and> (truthy d \<and> toLowerCase (strval d) = ''weekdays''
        \<longrightarrow> parseDays d = [''Mon'', ''Tue'', ''Wed'', ''Thu'', ''Fri''])
   \<and> (truthy d \<and> toLowerCase (strval d) = ''weekend'' \<longrightarrow> parseDays d = [''Sat'', ''Sun''])
   \<and> (truthy d \<and> toLowerCase (strval d) \<notin> {''all'', ''weekdays'', ''weekend''}
        \<longrightarrow> parseDays d
            = filter (\<lambda>tok. tok \<in> set allDays) (map trim (splitOn (CHR '','') (strval d))))
   \<and> set (parseDays d) \<subseteq> set allDays"
  using parseDays_canonical [of d] by (simp add: parseDays_def)

theorem parseDays_decoding_witness:
  "parseDays (Some ''WeekEnd'') = [''Sat'', ''Sun'']
   \<and> parseDays (Some ''ALL'') = allDays
   \<and> parseDays (Some '''') = allDays
   \<and> parseDays (Some ''Mon, xyz ,Sun'') = [''Mon'', ''Sun'']"
proof -
  have a: "truthy (Some ''WeekEnd'') \<and> toLowerCase (strval (Some ''WeekEnd'')) = ''weekend''"
    by (simp add: string_defs)
  have b: "toLowerCase (strval (Some ''ALL'')) = ''all''"
    by (simp add: string_defs)
  have c: "\<not> truthy (Some '''')"
    by (simp add: string_defs)
  have d: "truthy (Some ''Mon, xyz ,Sun'')
           \<and> toLowerCase (strval (Some ''Mon, xyz ,Sun'')) \<notin> {''all'', ''weekdays'', ''weekend''}"
    by (simp add: string_defs)
  have e: "filter (\<lambda>tok. tok \<in> set allDays) (map trim (splitOn (CHR '','') (strval (Some ''Mon, xyz ,Sun''))))
           = [''Mon'', ''Sun'']"
    by (simp add: string_defs allDays_def)
  from a b c d e parseDays_decoding [of "Some ''WeekEnd''"] parseDays_decoding [of "Some ''ALL''"]
    parseDays_decoding [of "Some ''''"] parseDays_decoding [of "Some ''Mon, xyz ,Sun''"]
  show ?thesis by simp
qed

text \<open>
  The claim as stated fails: two values that differ in letter case only decode differently.
\<close>

theorem parseDays_counterexample:
  "toLowerCase ''mon'' = toLowerCase ''Mon''
   \<and> parseDays (Some ''Mon'') = [''Mon''] \<and> parseDays (Some ''mon'') = []"
  by (simp add: parseDays_def string_defs allDays_def)

section \<open>Numeric fields of a row\<close>














text \<open>
  A subPoints field that is not empty and does not parse is not left undefined either:
  it becomes \<open>NaN\<close>, which \<open>updateProgress\<close> takes for a defined weight. A long run of
  digits is rounded to the nearest double.
\<close>

lemma subPoints_unparsable_example:
  "subPoints (subtaskOfRow ''Run'' (columnsOf '',Warm up,,abc'')) = Some NaN"
  by (simp add: subtaskOfRow_def columnsOf_def string_defs nth_opt_def parseInt_def digitRun_def
      isDigit_def)

lemma parseInt_rounding_example:
  "parseInt ''9007199254740993'' = Fin 9007199254740992"
  by (simp add: parseInt_def digitRun_def startsWithMinus_def isSpace_def isDigit_def
      digitsValue_def toDouble_def safeBound_def doubleBound_def Let_def bitLength.simps)

section \<open>The parser against the rows of the text\<close>

lemma trim_empty_all_space:
  assumes "trim s = []"
  shows "\<forall>c \<in> set s. isSpace c"
proof -
  from assms have "\<forall>c \<in> set (dropWhile isSpace s). isSpace c"
    by (simp add: trim_def dropWhile_eq_Nil_conv)
  then have "dropWhile isSpace s = []"
    using hd_dropWhile [of isSpace s] by (cases "dropWhile isSpace s") auto
  then show ?thesis by (simp add: dropWhile_eq_Nil_conv)
qed

lemma all_space_trim:
  assumes "\<forall>c \<in> set s. isSpace c"
  shows "trim s = []"
proof -
  from assms have e: "dropWhile isSpace s = []" by (simp add: dropWhile_eq_Nil_conv)
  show ?thesis unfolding trim_def e by simp
qed

lemma split_acc_no_sep: "sep \<notin> set s \<Longrightarrow> split_acc sep acc s = [rev acc @ s]"
  by (induction s arbitrary: acc) auto

lemma columnsOf_blank:
  assumes "trim row = []"
  shows "columnsOf row = [[]]"
proof -
  from trim_empty_all_space [OF assms] have sp: "\<forall>c \<in> set row. isSpace c" .
  have "\<not> isSpace (CHR '','')" by (simp add: isSpace_def)
  with sp have "CHR '','' \<notin> set row" by auto
  then have "splitOn (CHR '','') row = [row]"
    by (simp add: splitOn_def split_acc_no_sep)
  moreover from sp have "trim (filter (\<lambda>x. x \<noteq> CHR 0x22) row) = []"
    by (intro all_space_trim) simp
  ultimately show ?thesis by (simp add: columnsOf_def)
qed

lemma blank_row_is_neither:
  "trim row = [] \<Longrightarrow> \<not> isTaskRow row \<and> \<not> isSubtaskRow row"
  by (simp add: isTaskRow_def isSubtaskRow_def taskNameField_def subtaskNameField_def
      columnsOf_blank nth_opt_def truthy_def)

lemma parseLine_task:
  assumes "isTaskRow row"
  shows "parseLine row st = \<lparr> masterTasks = masterTasks st @ [taskOfRow (columnsOf row)],
                               currentTask = Some (length (masterTasks st)) \<rparr>"
proof -
  from assms blank_row_is_neither [of row] have "trim row \<noteq> []" by blast
  with assms show ?thesis
    by (simp add: parseLine_def isTaskRow_def taskNameField_def)
qed

lemma modify_at_last: "modify_at (length ts) f (ts @ [t]) = ts @ [f t]"
  by (induction ts) auto

lemma parseLine_subtask:
  assumes "isSubtaskRow row"
  shows "parseLine row \<lparr> masterTasks = ts @ [t], currentTask = Some (length ts) \<rparr>
         = \<lparr> masterTasks = ts @ [pushSubtask (subtaskOfRow (task_name t) (columnsOf row)) t],
             currentTask = Some (length ts) \<rparr>"
proof -
  from assms blank_row_is_neither [of row] have "trim row \<noteq> []" by blast
  with assms show ?thesis
    by (simp add: parseLine_def isSubtaskRow_def taskNameField_def subtaskNameField_def
        nth_opt_def modify_at_last)
qed

lemma parseLine_other:
  "\<not> isTaskRow row \<Longrightarrow> \<not> isSubtaskRow row \<Longrightarrow> parseLine row st = st"
  by (simp add: parseLine_def isTaskRow_def isSubtaskRow_def taskNameField_def
      subtaskNameField_def Let_def)

lemma parseLine_orphan:
  "\<not> isTaskRow row \<Longrightarrow> currentTask st = None \<Longrightarrow> parseLine row st = st"
  by (simp add: parseLine_def isTaskRow_def taskNameField_def Let_def)

lemma subtasksAfter_simps:
  "isTaskRow row \<Longrightarrow> subtasksAfter t (row # rows) = []"
  "isSubtaskRow row \<Longrightarrow>
     subtasksAfter t (row # rows) = subtaskOfRow (task_name t) (columnsOf row) # subtasksAfter t rows"
  "\<not> isTaskRow row \<Longrightarrow> \<not> isSubtaskRow row \<Longrightarrow> subtasksAfter t (row # rows) = subtasksAfter t rows"
  "subtasksAfter (pushSubtask s t) rows = subtasksAfter t rows"
  by (auto simp: subtasksAfter_def pushSubtask_def isSubtaskRow_def isTaskRow_def)

lemma fold_parseLine_current:
  "masterTasks (fold parseLine rows \<lparr> masterTasks = ts @ [t], currentTask = Some (length ts) \<rparr>)
   = ts @ [t\<lparr>subtasks := subtasks t @ subtasksAfter t rows\<rparr>] @ specTasks rows"
proof (induction rows arbitrary: ts t)
  case Nil
  show ?case by (simp add: subtasksAfter_def)
next
  case (Cons row rows)
  consider (task) "isTaskRow row" | (sub) "isSubtaskRow row"
    | (other) "\<not> isTaskRow row" "\<not> isSubtaskRow row" by blast
  then show ?case
  proof cases
    case task
    let ?t' = "taskOfRow (columnsOf row)"
    have "subtasks ?t' = []" by (simp add: taskOfRow_def)
    with Cons.IH [of "ts @ [t]" ?t'] task show ?thesis
      by (simp add: parseLine_task subtasksAfter_simps)
  next
    case sub
    then have nt: "\<not> isTaskRow row" by (simp add: isSubtaskRow_def isTaskRow_def)
    let ?s = "subtaskOfRow (task_name t) (columnsOf row)"
    from Cons.IH [of ts "pushSubtask ?s t"] sub nt show ?thesis
      by (simp add: parseLine_subtask subtasksAfter_simps) (simp add: pushSubtask_def)
  next
    case other
    with Cons.IH [of ts t] show ?thesis
      by (simp add: parseLine_other subtasksAfter_simps)
  qed
qed

lemma fold_parseLine_start:
  "masterTasks (fold parseLine rows \<lparr> masterTasks = mt, currentTask = None \<rparr>) = mt @ specTasks rows"
proof (induction rows)
  case Nil
  show ?case by simp
next
  case (Cons row rows)
  show ?case
  proof (cases "isTaskRow row")
    case True
    let ?t' = "taskOfRow (columnsOf row)"
    have "subtasks ?t' = []" by (simp add: taskOfRow_def)
    with True fold_parseLine_current [of rows mt ?t'] show ?thesis
      by (simp add: parseLine_task)
  next
    case False
    with Cons.IH show ?thesis by (simp add: parseLine_orphan)
  qed
qed

lemma specTasks_names:
  "map task_name (specTasks rows) = map (\<lambda>row. strval (taskNameField row)) (filter isTaskRow rows)"
  by (induction rows) (simp_all add: taskOfRow_def taskNameField_def)

lemma specTasks_skip_orphans:
  "specTasks rows = specTasks (dropWhile (\<lambda>row. \<not> isTaskRow row) rows)"
  by (induction rows) simp_all

text \<open>
  C2. For every text, and whatever the catalog held before, \<open>parseMasterTasks\<close> appends
  to the catalog the tasks that the rows of the text describe: one task for each row
  with a non-empty task-name field, in the order of the rows, with the subtask rows that
  follow it up to the next task row as its subtasks. The names of the new tasks are the
  task-name fields of the task rows; rows before the first task row yield nothing; a
  blank row is neither a task row nor a subtask row. The parse is a total function of
  the text: no row ends it.
\<close>

theorem parseMasterTasks_rows:
  "parseMasterTasks mt csv = mt @ specTasks (dataRows csv)
   \<and> map task_name (specTasks (dataRows csv))
       = map (\<lambda>row. strval (taskNameField row)) (filter isTaskRow (dataRows csv))
   \<and> specTasks (dataRows csv) = specTasks (dropWhile (\<lambda>row. \<not> isTaskRow row) (dataRows csv))
   \<and> (\<forall>row. trim row = [] \<longrightarrow> \<not> isTaskRow row \<and> \<not> isSubtaskRow row)"
proof (intro conjI allI impI)
  show "parseMasterTasks mt csv = mt @ specTasks (dataRows csv)"
    by (simp add: parseMasterTasks_def dataRows_def fold_parseLine_start)
  show "map task_name (specTasks (dataRows csv))
          = map (\<lambda>row. strval (taskNameField row)) (filter isTaskRow (dataRows csv))"
    by (rule specTasks_names)
  show "specTasks (dataRows csv) = specTasks (dropWhile (\<lambda>row. \<not> isTaskRow row) (dataRows csv))"
    by (rule specTasks_skip_orphans)
  show "\<not> isTaskRow row" if "trim row = []" for row
    using blank_row_is_neither [OF that] by simp
  show "\<not> isSubtaskRow row" if "trim row = []" for row
    using blank_row_is_neither [OF that] by simp
qed

text \<open>The rows and the columns of the example text.\<close>

lemma exCsv_rows:
  "dataRows exCsv = ['',Orphan'', ''Yoga,,9,,,,all,,,,,TRUE'', '',Stretch'', '',Stretch'', ''  '',
     '',,7'', '',Breathe'', ''Walk,,10,,,,weekend,,,,,TRUE'']"
  by (simp add: dataRows_def exCsv_def split_lines_def)

lemma exCsv_columns:
  "columnsOf '',Orphan'' = ['''', ''Orphan'']"
  "columnsOf ''Yoga,,9,,,,all,,,,,TRUE'' = [''Yoga'', '''', ''9'', '''', '''', '''', ''all'', '''', '''', '''', '''', ''TRUE'']"
  "columnsOf '',Stretch'' = ['''', ''Stretch'']"
  "columnsOf ''  '' = ['''']"
  "columnsOf '',,7'' = ['''', '''', ''7'']"
  "columnsOf '',Breathe'' = ['''', ''Breathe'']"
  "columnsOf ''Walk,,10,,,,weekend,,,,,TRUE'' = [''Walk'', '''', ''10'', '''', '''', '''', ''weekend'', '''', '''', '''', '''', ''TRUE'']"
  by (simp_all add: columnsOf_def splitOn_def trim_def isSpace_def)

lemma exCsv_slugs:
  "slug ''Yoga_Stretch'' = ''yoga_stretch''" "slug ''Yoga_Breathe'' = ''yoga_breathe''"
  by (simp_all add: slug_def toLowerCase_def lowerChar_def isSpace_def isSlugChar_def)

theorem parseMasterTasks_rows_witness:
  "map task_name (parseMasterTasks [] exCsv) = [''Yoga'', ''Walk'']
   \<and> map (\<lambda>t. map sub_id (subtasks t)) (parseMasterTasks [] exCsv)
       = [[''yoga_stretch'', ''yoga_stretch'', ''yoga_breathe''], []]
   \<and> trim ''  '' = [] \<and> \<not> isTaskRow ''  '' \<and> \<not> isSubtaskRow ''  ''"
proof -
  have blank: "trim ''  '' = []" by (simp add: trim_def isSpace_def)
  have "map task_name (specTasks (dataRows exCsv)) = [''Yoga'', ''Walk'']"
    and "map (\<lambda>t. map sub_id (subtasks t)) (specTasks (dataRows exCsv))
       = [[''yoga_stretch'', ''yoga_stretch'', ''yoga_breathe''], []]"
    by (simp_all add: exCsv_rows isTaskRow_def isSubtaskRow_def taskNameField_def
        subtaskNameField_def exCsv_columns nth_opt_def truthy_def strval_def subtasksAfter_def
        taskOfRow_def subtaskOfRow_def exCsv_slugs)
  with blank parseMasterTasks_rows [of "[]" exCsv] show ?thesis by simp
qed

section \<open>The aggregation\<close>

lemma numAdd_assoc: "numAdd (numAdd a b) c = numAdd a (numAdd b c)"
  by (cases a; cases b; cases c) simp_all

lemma numAdd_zero: "numAdd a (Fin 0) = a" "numAdd (Fin 0) a = a"
  by (cases a; simp)+

lemma foldl_numAdd: "foldl numAdd a xs = numAdd a (numSum xs)"
  by (induction xs arbitrary: a) (simp_all add: numAdd_zero numAdd_assoc)

lemma foldl_conditional_sum:
  "foldl (\<lambda>earned sub. if P sub then numAdd earned (f sub) else earned) a subs
   = numAdd a (numSum (map f (filter P subs)))"
  by (induction subs arbitrary: a) (simp_all add: numAdd_zero numAdd_assoc)

lemma subPointsValue_eq:
  "(case subPoints s of None \<Rightarrow> Fin 0 | Some n \<Rightarrow> orZero n) = subPointsValue s"
  by (simp add: subPointsValue_def orZero_def split: option.splits number.splits)

lemma count_true_values: "length (filter (\<lambda>b. b) (objValues m)) = length (filter snd m)"
  by (induction m) (simp_all add: objValues_def)

text \<open>
  A subtask's flag is read from its own entry when it has one, and reads false without
  one unless its id is inherited.
\<close>

lemma getProp_flagTrue:
  assumes "sub_id s \<in> fst ` set (subtaskCompletion inst) \<or> sub_id s \<notin> set protoNames"
  shows "getProp (subtaskCompletion inst) (sub_id s) = flagTrue inst s"
proof (cases "map_of (subtaskCompletion inst) (sub_id s)")
  case None
  with assms have "sub_id s \<notin> set protoNames" by (simp add: own_key_iff)
  with None show ?thesis by (simp add: getProp_def flagTrue_def)
next
  case (Some b)
  then show ?thesis by (simp add: getProp_def flagTrue_def)
qed

lemma earnedSubPoints_eq:
  assumes "readsOwn inst"
  shows "earnedSubPoints inst =
     (if definesSubPoints (task inst)
      then numSum (map subPointsValue (completedSubtasks inst))
      else if subtasks (task inst) \<noteq> []
      then numMul (Fin (of_nat (trueEntries inst)))
             (numDiv (points (task inst)) (Fin (of_nat (length (subtasks (task inst))))))
      else Fin 0)"
proof -
  have "filter (\<lambda>s. getProp (subtaskCompletion inst) (sub_id s)) (subtasks (task inst))
        = completedSubtasks inst"
    unfolding completedSubtasks_def using assms
    by (intro filter_cong refl getProp_flagTrue) (simp add: readsOwn_def)
  then have "foldl (\<lambda>earned sub.
           if getProp (subtaskCompletion inst) (sub_id sub)
           then numAdd earned (case subPoints sub of None \<Rightarrow> Fin 0 | Some n \<Rightarrow> orZero n)
           else earned) (Fin 0) (subtasks (task inst))
        = numSum (map subPointsValue (completedSubtasks inst))"
    by (simp add: foldl_conditional_sum subPointsValue_eq numAdd_zero)
  then show ?thesis
    by (simp add: earnedSubPoints_def Let_def definesSubPoints_def list_ex_iff
        count_true_values trueEntries_def)
qed

lemma progressStep_total: "snd (progressStep acc inst) = numAdd (snd acc) (points (task inst))"
  by (simp add: progressStep_def Let_def)

lemma progressStep_current:
  "readsOwn inst \<Longrightarrow> fst (progressStep acc inst) = numAdd (fst acc) (specEarned trueEntries inst)"
  by (simp add: progressStep_def specEarned_def earnedSubPoints_eq Let_def numAdd_zero)

lemma foldl_progressStep_total:
  "snd (foldl progressStep acc insts)
   = numAdd (snd acc) (numSum (map (\<lambda>inst. points (task inst)) insts))"
  by (induction insts arbitrary: acc) (simp_all add: progressStep_total numAdd_zero numAdd_assoc)

lemma foldl_progressStep_current:
  "\<forall>inst \<in> set insts. readsOwn inst \<Longrightarrow>
   fst (foldl progressStep acc insts)
   = numAdd (fst acc) (numSum (map (specEarned trueEntries) insts))"
  by (induction insts arbitrary: acc) (simp_all add: progressStep_current numAdd_zero numAdd_assoc)

lemma length_filter_distinct_keys:
  assumes "distinct (map f xs)"
  shows "length (filter P xs) = card (f ` {x \<in> set xs. P x})"
proof -
  from assms have "distinct (map f (filter P xs))" by (rule distinct_map_filter)
  then have "card (set (map f (filter P xs))) = length (map f (filter P xs))"
    by (rule distinct_card)
  then show ?thesis by simp
qed

lemma trueEntries_completedSubtasks:
  assumes "oneEntryPerSubtask inst"
  shows "trueEntries inst = length (completedSubtasks inst)"
proof -
  let ?m = "subtaskCompletion inst" and ?subs = "subtasks (task inst)"
  from assms have dk: "distinct (map fst ?m)" and ds: "distinct (map sub_id ?subs)"
    and keys: "fst ` set ?m = sub_id ` set ?subs"
    by (simp_all add: oneEntryPerSubtask_def objKeys_def)
  have "fst ` {p \<in> set ?m. snd p} = {k. map_of ?m k = Some True}"
    using dk by (force simp: image_iff dest: map_of_SomeD)
  moreover have "sub_id ` {s \<in> set ?subs. flagTrue inst s} = {k. map_of ?m k = Some True}"
  proof -
    have "k \<in> sub_id ` set ?subs" if "map_of ?m k = Some True" for k
      using that keys by (metis map_of_SomeD image_eqI fst_conv)
    then show ?thesis by (auto simp: flagTrue_def)
  qed
  ultimately show ?thesis
    by (simp add: trueEntries_def completedSubtasks_def length_filter_distinct_keys [OF dk]
        length_filter_distinct_keys [OF ds])
qed

lemma specEarned_cong:
  "c inst = c' inst \<Longrightarrow> specEarned c inst = specEarned c' inst"
  by (simp add: specEarned_def Let_def)

lemma readsOwn_plain: "plainSubtaskIds inst \<Longrightarrow> readsOwn inst"
  by (simp add: plainSubtaskIds_def readsOwn_def)

lemma readsOwn_oneEntry: "oneEntryPerSubtask inst \<Longrightarrow> readsOwn inst"
  by (simp add: oneEntryPerSubtask_def readsOwn_def objKeys_def)

text \<open>
  C1, amended. The total is the sum of the points of all instances. When no subtask id is
  a name that \<open>Object.prototype\<close> defines, the current points are the sum over the
  instances of the earned contribution: the task's points when completed; otherwise,
  with subtasks of which one defines subPoints, the sum of the subPoints of the subtasks
  whose flag is true (undefined and \<open>NaN\<close> count 0); otherwise, with subtasks, the
  number of true entries of the completion record times points by number of subtasks;
  both clamped at the task's points; otherwise 0. When every instance has exactly one
  entry per subtask, the number of true entries is the number of completed subtasks,
  and the contribution is the one the claim describes.
\<close>

theorem updateProgress_aggregation:
  "totalPoints (updateProgress insts) = numSum (map (\<lambda>inst. points (task inst)) insts)
   \<and> ((\<forall>inst \<in> set insts. plainSubtaskIds inst) \<longrightarrow>
        currentPoints (updateProgress insts) = numSum (map (specEarned trueEntries) insts))
   \<and> ((\<forall>inst \<in> set insts. oneEntryPerSubtask inst) \<longrightarrow>
        currentPoints (updateProgress insts)
          = numSum (map (specEarned (\<lambda>inst. length (completedSubtasks inst))) insts))"
proof -
  have tot: "totalPoints (updateProgress insts) = numSum (map (\<lambda>inst. points (task inst)) insts)"
    by (simp add: updateProgress_def Let_def foldl_progressStep_total numAdd_zero)
  have cur: "currentPoints (updateProgress insts) = numSum (map (specEarned trueEntries) insts)"
    if "\<forall>inst \<in> set insts. readsOwn inst"
    using that by (simp add: updateProgress_def Let_def foldl_progressStep_current numAdd_zero)
  have plain: "currentPoints (updateProgress insts) = numSum (map (specEarned trueEntries) insts)"
    if "\<forall>inst \<in> set insts. plainSubtaskIds inst"
    using that by (intro cur) (simp add: readsOwn_plain)
  have "currentPoints (updateProgress insts)
          = numSum (map (specEarned (\<lambda>inst. length (completedSubtasks inst))) insts)"
    if one: "\<forall>inst \<in> set insts. oneEntryPerSubtask inst"
  proof -
    have eq: "map (specEarned trueEntries) insts
          = map (specEarned (\<lambda>inst. length (completedSubtasks inst))) insts"
      using one by (intro map_cong refl specEarned_cong trueEntries_completedSubtasks) simp
    from one have "\<forall>inst \<in> set insts. readsOwn inst" by (simp add: readsOwn_oneEntry)
    then have "currentPoints (updateProgress insts) = numSum (map (specEarned trueEntries) insts)"
      by (rule cur)
    then show ?thesis by (simp only: eq)
  qed
  with tot plain show ?thesis by blast
qed

lemma exYogaTicked_eq:
  "exYogaTicked = [\<lparr> inst_id = ''yoga'', task = exYoga, completed = False,
                     subtaskCompletion = [(''yoga_stretch'', True), (''yoga_breathe'', False)] \<rparr>]"
  by (simp add: exYogaTicked_def generateTodayInstances_def isEligibleToday_def nth_opt_def
      dayMap_def newInstance_def handleSubtaskToggle_def toggleSubtask_def objValues_def
      setProp_def protoKey_def example_defs)

theorem updateProgress_aggregation_witness:
  "currentPoints (updateProgress [toggleSubtask ''read_b'' True (newInstance exRead), newInstance exWalk]) = Fin 6
   \<and> totalPoints (updateProgress [toggleSubtask ''read_b'' True (newInstance exRead), newInstance exWalk]) = Fin 20"
proof -
  let ?a = "toggleSubtask ''read_b'' True (newInstance exRead)" and ?b = "newInstance exWalk"
  have a: "?a = \<lparr> inst_id = ''read'', task = exRead, completed = False,
                  subtaskCompletion = [(''read_a'', False), (''read_b'', True)] \<rparr>"
    by (simp add: toggleSubtask_def newInstance_def objValues_def setProp_def protoKey_def
        example_defs)
  have "oneEntryPerSubtask ?a" unfolding a
    by (simp add: oneEntryPerSubtask_def objKeys_def example_defs)
  moreover have "oneEntryPerSubtask ?b"
    by (simp add: oneEntryPerSubtask_def objKeys_def newInstance_def example_defs)
  moreover have "specEarned (\<lambda>inst. length (completedSubtasks inst)) ?a = Fin 6" unfolding a
    by (simp add: specEarned_def definesSubPoints_def completedSubtasks_def flagTrue_def
        subPointsValue_def numMin_def example_defs)
  moreover have "specEarned (\<lambda>inst. length (completedSubtasks inst)) ?b = Fin 0"
    by (simp add: specEarned_def newInstance_def example_defs)
  moreover have "points (task ?a) = Fin 10" "points (task ?b) = Fin 10"
    by (simp_all add: toggleSubtask_fields newInstance_fields example_defs)
  ultimately show ?thesis
    using updateProgress_aggregation [of "[?a, ?b]"] by simp
qed

text \<open>
  The claim as stated fails where two subtasks share an id, as two subtask rows of the
  same name do: one entry stands for both, so two of three subtasks are completed but
  one third of the points is earned.
\<close>

theorem updateProgress_aggregation_counterexample:
  "map (\<lambda>inst. length (completedSubtasks inst)) exYogaTicked = [2]
   \<and> map completed exYogaTicked = [False]
   \<and> map (\<lambda>inst. length (subtasks (task inst))) exYogaTicked = [3]
   \<and> map (\<lambda>inst. points (task inst)) exYogaTicked = [Fin 9]
   \<and> numSum (map (specEarned (\<lambda>inst. length (completedSubtasks inst))) exYogaTicked) = Fin 6
   \<and> currentPoints (updateProgress exYogaTicked) = Fin 3"
proof -
  have "foldl progressStep (Fin 0, Fin 0) exYogaTicked = (Fin 3, Fin 9)"
    by (simp add: exYogaTicked_eq progressStep_def earnedSubPoints_def objValues_def numMin_def
        example_defs)
  then have "currentPoints (updateProgress exYogaTicked) = Fin 3"
    by (simp add: updateProgress_def)
  moreover have "map (\<lambda>inst. length (completedSubtasks inst)) exYogaTicked = [2]"
    by (simp add: exYogaTicked_eq completedSubtasks_def flagTrue_def example_defs)
  moreover from this
  have "numSum (map (specEarned (\<lambda>inst. length (completedSubtasks inst))) exYogaTicked) = Fin 6"
    by (simp add: exYogaTicked_eq specEarned_def definesSubPoints_def numMin_def example_defs)
  ultimately show ?thesis
    by (simp add: exYogaTicked_eq example_defs)
qed

text \<open>
  Where a subtask id is inherited the flag reads true without an entry: the instance of
  \<open>exProtoCsv\<close>, with an empty record and not completed, earns the points of its subtask.
\<close>

lemma updateProgress_inherited_example:
  "map subtaskCompletion exProto = [[]] \<and> map completed exProto = [False]
   \<and> currentPoints (updateProgress exProto) = Fin 4"
proof -
  have "foldl progressStep (Fin 0, Fin 0) exProto = (Fin 4, Fin 4)"
    by (simp add: exProto_eq progressStep_def earnedSubPoints_def getProp_def protoKey_inherited
        orZero_def numMin_def exProtoTask_def)
  then show ?thesis by (simp add: updateProgress_def exProto_eq)
qed

end
